theory Spec2Isabelle
  imports Complex_Main "HOL-Library.Sublist"
begin

section \<open>Byte-budget truncation of the task list\<close>

text \<open>
  \<^verbatim>\<open>truncate_data_to_limit\<close> measures \<^verbatim>\<open>len(json.dumps(new_list).encode('utf-8'))\<close>.
  With its default arguments \<^verbatim>\<open>json.dumps\<close> writes a list as an opening bracket, the
  items separated by a comma and a space, and a closing bracket, and it escapes every
  character beyond ASCII, so the number of bytes is the number of characters. The JSON
  text of a single item is the parameter \<open>enc\<close>.
\<close>

fun join :: "string \<Rightarrow> string list \<Rightarrow> string" where
  "join sep [] = []"
| "join sep [x] = x"
| "join sep (x # y # ys) = x @ sep @ join sep (y # ys)"

definition dumps :: "('a \<Rightarrow> string) \<Rightarrow> 'a list \<Rightarrow> string" where
  "dumps enc xs = ''['' @ join '', '' (map enc xs) @ '']''"

definition size_of :: "('a \<Rightarrow> string) \<Rightarrow> 'a list \<Rightarrow> int" where
  "size_of enc xs = int (length (dumps enc xs))"

text \<open>
  The \<^verbatim>\<open>for\<close> loop of \<^verbatim>\<open>truncate_data_to_limit\<close>: \<open>new_list\<close> is the list built so
  far, the last argument the items still to visit. \<^verbatim>\<open>new_list.pop()\<close> followed by
  \<^verbatim>\<open>break\<close> returns the list without the item just appended.
\<close>

fun truncate_loop :: "('a \<Rightarrow> string) \<Rightarrow> int \<Rightarrow> 'a list \<Rightarrow> 'a list \<Rightarrow> 'a list" where
  "truncate_loop enc limit_bytes new_list [] = new_list"
| "truncate_loop enc limit_bytes new_list (item # rest) =
     (let appended = new_list @ [item];
          size = size_of enc appended
      in if size > limit_bytes then butlast appended
         else truncate_loop enc limit_bytes appended rest)"

definition truncate_data_to_limit :: "('a \<Rightarrow> string) \<Rightarrow> 'a list \<Rightarrow> int \<Rightarrow> 'a list" where
  "truncate_data_to_limit enc task_list limit_bytes = truncate_loop enc limit_bytes [] task_list"

section \<open>The hookup object, its listener and its world\<close>

text \<open>
  Exceptions of the Python program that the model distinguishes. \<open>LibraryError\<close> stands
  for whatever the Todoist SDK call \<^verbatim>\<open>get_auth_token\<close> raises (a network error, a
  non-success response, a body it cannot parse), with its message.
\<close>

datatype py_exception = TypeError | IndexError | OSError | LibraryError string

text \<open>How a call ends: it returns a value, raises, or leaves through \<^verbatim>\<open>sys.exit\<close>.\<close>

datatype 'a outcome = Returned 'a | Raised py_exception | Exited nat

text \<open>
  The \<^verbatim>\<open>HTTPServer\<close> object held in \<^verbatim>\<open>self.httpd\<close>: bound to port 8080 and serving, or
  shut down with its socket closed.
\<close>

datatype httpd_state = Serving | Closed

datatype response = Status200 | Status404

text \<open>
  The file \<^verbatim>\<open>access_token.json\<close>: absent, holding a JSON object whose
  \<^verbatim>\<open>access_token\<close> entry is the given value (\<open>None\<close> for \<^verbatim>\<open>null\<close> or a missing
  key), or holding something \<^verbatim>\<open>json.load\<close> rejects.
\<close>

datatype token_file = NoFile | TokenFile "string option" | BrokenFile

datatype log_line = Timeout_line | StateMismatch_line | Interrupt_line | Already_line

text \<open>
  What the program does to the outside, in the order it happens. Of the lines it prints,
  the trace keeps those that tell its paths apart.
\<close>

datatype effect =
    BrowserOpen string
  | ListenerStart
  | BindFailed
  | Responded response
  | HandlerRaised py_exception
  | ExchangeCall "string option"
  | Printed log_line
  | PrintedError py_exception

text \<open>
  A GET request as the handler sees it: \<^verbatim>\<open>handler_self.path\<close>, and the dictionary that
  \<^verbatim>\<open>urllib.parse.parse_qs(urllib.parse.urlparse(path).query)\<close> computes from it.
\<close>

record request =
  path :: string
  params :: "string \<rightharpoonup> string list"

text \<open>
  The fields of \<^verbatim>\<open>TrmnlTodoistHookup\<close> that authentication touches (\<open>httpd = None\<close>:
  the attribute does not exist yet), together with the world around the object: the token
  file, whether another process holds port 8080, and the trace of effects.
\<close>

record hookup =
  todoist_oauth_timeout :: real
  todoist_response_auth_code :: "string option"
  todoist_response_state :: "string option"
  todoist_oauth_callback_received :: bool
  todoist_api_token :: "string option"
  httpd :: "httpd_state option"
  access_token_file :: token_file
  port_taken :: bool
  effects :: "effect list"

text \<open>Python's \<^verbatim>\<open>str(x)\<close> and truth value for a value that is a string or \<^verbatim>\<open>None\<close>.\<close>

definition py_str :: "string option \<Rightarrow> string" where
  "py_str v = (case v of None \<Rightarrow> ''None'' | Some x \<Rightarrow> x)"

definition truthy :: "string option \<Rightarrow> bool" where
  "truthy v = (case v of None \<Rightarrow> False | Some x \<Rightarrow> x \<noteq> [])"

definition emit :: "effect \<Rightarrow> hookup \<Rightarrow> hookup" where
  "emit e s = s\<lparr>effects := effects s @ [e]\<rparr>"

subsection \<open>The request handler\<close>

text \<open>\<^verbatim>\<open>params.get(k, [None])[0]\<close>\<close>

definition get_first :: "(string \<rightharpoonup> string list) \<Rightarrow> string \<Rightarrow> py_exception + string option" where
  "get_first ps k =
     (case ps k of None \<Rightarrow> Inr None | Some [] \<Rightarrow> Inl IndexError | Some (v # _) \<Rightarrow> Inr (Some v))"

text \<open>
  \<^verbatim>\<open>do_GET\<close>: the status sent, the exception the handler dies with (if any), and the hookup
  object afterwards. On the callback path status 200 and the body are sent first; the
  \<^verbatim>\<open>print\<close> that slices \<^verbatim>\<open>code[:5]\<close> and \<^verbatim>\<open>state[:5]\<close> raises \<^verbatim>\<open>TypeError\<close> when either is
  \<^verbatim>\<open>None\<close>.
\<close>

definition do_GET :: "request \<Rightarrow> hookup \<Rightarrow> response \<times> py_exception option \<times> hookup" where
  "do_GET req s =
     (if prefix ''/callback'' (path req) then
        (case get_first (params req) ''code'' of
           Inl e \<Rightarrow> (Status200, Some e, s)
         | Inr code \<Rightarrow>
             (case get_first (params req) ''state'' of
                Inl e \<Rightarrow> (Status200, Some e, s)
              | Inr state \<Rightarrow>
                  (case (code, state) of
                     (Some c, Some st) \<Rightarrow>
                       if c \<noteq> [] \<and> st \<noteq> [] then
                         (Status200, None,
                          s\<lparr>todoist_response_auth_code := Some c,
                            todoist_response_state := Some st,
                            todoist_oauth_callback_received := True\<rparr>)
                       else (Status200, None, s)
                   | _ \<Rightarrow> (Status200, Some TypeError, s))))
      else (Status404, None, s))"

text \<open>
  One request reaching the listener thread. Only a serving \<^verbatim>\<open>HTTPServer\<close> accepts it;
  \<^verbatim>\<open>serve_forever\<close> reports an exception of the handler and goes on serving.
\<close>

definition serve :: "request \<Rightarrow> hookup \<Rightarrow> hookup" where
  "serve req s =
     (if httpd s = Some Serving then
        (case do_GET req s of
           (resp, None, s') \<Rightarrow> emit (Responded resp) s'
         | (resp, Some e, s') \<Rightarrow> emit (HandlerRaised e) (emit (Responded resp) s'))
      else s)"

fun serve_all :: "request list \<Rightarrow> hookup \<Rightarrow> hookup" where
  "serve_all [] s = s"
| "serve_all (r # rs) s = serve_all rs (serve r s)"

subsection \<open>Stopping and starting the listener\<close>

text \<open>
  \<^verbatim>\<open>shutdown_local_server\<close> is called from the waiting thread while the listener thread may
  still be serving: \<open>late\<close> are the requests the listener serves before
  \<^verbatim>\<open>httpd.shutdown()\<close> returns. Afterwards the socket is closed.
\<close>

definition shutdown_local_server :: "request list \<Rightarrow> hookup \<Rightarrow> hookup" where
  "shutdown_local_server late s =
     (if httpd s \<noteq> None then (serve_all late s)\<lparr>httpd := Some Closed\<rparr> else s)"

definition reset_auth :: "request list \<Rightarrow> hookup \<Rightarrow> hookup" where
  "reset_auth late s =
     shutdown_local_server late
       (s\<lparr>todoist_response_auth_code := None,
          todoist_response_state := None,
          todoist_api_token := None,
          todoist_oauth_callback_received := False\<rparr>)"

text \<open>
  \<^verbatim>\<open>start_local_server\<close> up to the call of \<^verbatim>\<open>serve_forever\<close>, which is where the listener
  thread stays. When another process holds the port, the constructor of \<^verbatim>\<open>HTTPServer\<close>
  raises, \<^verbatim>\<open>self.httpd\<close> is not assigned and the thread ends.
\<close>

definition start_local_server :: "hookup \<Rightarrow> hookup" where
  "start_local_server s =
     (let s1 = reset_auth [] s
      in if port_taken s1 then emit BindFailed s1
         else emit ListenerStart (s1\<lparr>httpd := Some Serving\<rparr>))"

subsection \<open>One authentication attempt\<close>

text \<open>
  What the waiting thread observes while it is in the \<^verbatim>\<open>try\<close> block of \<^verbatim>\<open>authenticate\<close>:
  the listener thread serves a request, the waiting thread evaluates the loop condition
  and reads the clock (\<open>Poll\<close> carries \<^verbatim>\<open>time.time() - start_time\<close>), or the user
  interrupts the program.
\<close>

datatype event = Request request | Poll real | Interrupt

datatype save_outcome = SaveOk | OpenFailed | DumpFailed

text \<open>
  The surroundings of one call of \<^verbatim>\<open>authenticate\<close>: the text of the UUID that
  \<^verbatim>\<open>uuid.uuid4()\<close> draws, the events during the wait, the requests still served while the
  listener is being shut down, the answer of the token endpoint for a given code, and what
  happens to the write of the token file.
\<close>

record attempt =
  uuid4 :: string
  sched :: "event list"
  late :: "request list"
  get_auth_token :: "string option \<Rightarrow> py_exception + string"
  save_outcome :: save_outcome

text \<open>
  \<^verbatim>\<open>while not hasattr(self, "httpd"): time.sleep(0.2)\<close>. The listener thread has either
  assigned the attribute or ended, so nothing changes between two rounds.
\<close>

partial_function (option) wait_httpd :: "hookup \<Rightarrow> hookup option" where
  "wait_httpd s = (if httpd s \<noteq> None then Some s else wait_httpd s)"

datatype wait_result = CallbackSeen | TimedOut | Interrupted

text \<open>
  The polling loop. A schedule that ends before the loop is left describes no complete
  run: the result is \<open>None\<close>.
\<close>

fun wait_loop :: "request list \<Rightarrow> event list \<Rightarrow> hookup \<Rightarrow> (wait_result \<times> hookup) option" where
  "wait_loop lt [] s = None"
| "wait_loop lt (Request r # es) s = wait_loop lt es (serve r s)"
| "wait_loop lt (Interrupt # es) s = Some (Interrupted, s)"
| "wait_loop lt (Poll elapsed # es) s =
     (if todoist_oauth_callback_received s then Some (CallbackSeen, s)
      else if elapsed > todoist_oauth_timeout s then
        Some (TimedOut, reset_auth lt (emit (Printed Timeout_line) s))
      else wait_loop lt es s)"

text \<open>
  \<^verbatim>\<open>save_access_token\<close>: \<^verbatim>\<open>open(path, "w")\<close> may fail and leave the file as it was,
  \<^verbatim>\<open>json.dump\<close> may fail after the file has been truncated; both are caught and printed.
\<close>

definition save_access_token :: "save_outcome \<Rightarrow> hookup \<Rightarrow> hookup" where
  "save_access_token w s =
     (case w of
        SaveOk \<Rightarrow> s\<lparr>access_token_file := TokenFile (todoist_api_token s)\<rparr>
      | OpenFailed \<Rightarrow> s
      | DumpFailed \<Rightarrow> s\<lparr>access_token_file := BrokenFile\<rparr>)"

definition load_access_token :: "hookup \<Rightarrow> hookup" where
  "load_access_token s =
     (case access_token_file s of
        TokenFile v \<Rightarrow> s\<lparr>todoist_api_token := v\<rparr>
      | _ \<Rightarrow> s)"

definition authenticate :: "attempt \<Rightarrow> hookup \<Rightarrow> (bool outcome \<times> hookup) option" where
  "authenticate a s0 =
     (let state = uuid4 a;
          s1 = emit (BrowserOpen state) s0;
          s2 = start_local_server s1
      in case wait_httpd s2 of
           None \<Rightarrow> None
         | Some s3 \<Rightarrow>
             (case wait_loop (late a) (sched a) s3 of
                None \<Rightarrow> None
              | Some (Interrupted, s4) \<Rightarrow>
                  Some (Exited 1,
                        shutdown_local_server []
                          (reset_auth (late a) (emit (Printed Interrupt_line) s4)))
              | Some (_, s4) \<Rightarrow>
                  (let s5 = shutdown_local_server (late a) s4
                   in if state \<noteq> py_str (todoist_response_state s5) then
                        Some (Returned False,
                              shutdown_local_server []
                                (reset_auth [] (emit (Printed StateMismatch_line) s5)))
                      else
                        (let s6 = emit (ExchangeCall (todoist_response_auth_code s5)) s5
                         in case get_auth_token a (todoist_response_auth_code s5) of
                              Inl e \<Rightarrow> Some (Raised e, s6)
                            | Inr access_token \<Rightarrow>
                                Some (Returned True,
                                      save_access_token (save_outcome a)
                                        (s6\<lparr>todoist_api_token := Some access_token\<rparr>))))))"

subsection \<open>Construction and the start of main\<close>

text \<open>The assignments at the top of \<^verbatim>\<open>__init__\<close>, in a world with the given file and port.\<close>

definition new_hookup :: "token_file \<Rightarrow> bool \<Rightarrow> hookup" where
  "new_hookup file taken =
     \<lparr>todoist_oauth_timeout = 60,
      todoist_response_auth_code = None,
      todoist_response_state = None,
      todoist_oauth_callback_received = False,
      todoist_api_token = None,
      httpd = None,
      access_token_file = file,
      port_taken = taken,
      effects = []\<rparr>"

text \<open>
  \<^verbatim>\<open>__init__\<close>: load the cached token, then authenticate when \<^verbatim>\<open>configure()\<close> succeeded
  and no token was loaded. The value \<^verbatim>\<open>authenticate\<close> returns is dropped.
\<close>

definition hookup_init :: "attempt \<Rightarrow> bool \<Rightarrow> token_file \<Rightarrow> bool \<Rightarrow> (unit outcome \<times> hookup) option" where
  "hookup_init a configure_ok file taken =
     (let s = load_access_token (new_hookup file taken)
      in if configure_ok \<and> \<not> truthy (todoist_api_token s) then
           (case authenticate a s of
              None \<Rightarrow> None
            | Some (Returned _, s') \<Rightarrow> Some (Returned (), s')
            | Some (Raised e, s') \<Rightarrow> Some (Raised e, s')
            | Some (Exited n, s') \<Rightarrow> Some (Exited n, s'))
         else Some (Returned (), s))"

text \<open>
  \<^verbatim>\<open>main\<close> up to the point where it starts fetching tasks: construct the object
  (attempt \<open>a1\<close>), authenticate again (attempt \<open>a2\<close>) when there still is no token. An
  exception is caught and printed by \<^verbatim>\<open>main\<close>; \<^verbatim>\<open>sys.exit\<close> is not.
\<close>

definition main_authenticate ::
  "attempt \<Rightarrow> attempt \<Rightarrow> bool \<Rightarrow> token_file \<Rightarrow> bool \<Rightarrow> (unit outcome \<times> hookup) option" where
  "main_authenticate a1 a2 configure_ok file taken =
     (case hookup_init a1 configure_ok file taken of
        None \<Rightarrow> None
      | Some (Raised e, s) \<Rightarrow> Some (Returned (), emit (PrintedError e) s)
      | Some (Exited n, s) \<Rightarrow> Some (Exited n, s)
      | Some (Returned _, s) \<Rightarrow>
          if \<not> truthy (todoist_api_token s) then
            (case authenticate a2 s of
               None \<Rightarrow> None
             | Some (Returned _, s') \<Rightarrow> Some (Returned (), s')
             | Some (Raised e, s') \<Rightarrow> Some (Returned (), emit (PrintedError e) s')
             | Some (Exited n, s') \<Rightarrow> Some (Exited n, s'))
          else Some (Returned (), emit (Printed Already_line) s))"

subsection \<open>Reading the trace\<close>

fun is_exchange :: "effect \<Rightarrow> bool" where
  "is_exchange (ExchangeCall _) = True"
| "is_exchange _ = False"

definition exchange_attempts :: "hookup \<Rightarrow> nat" where
  "exchange_attempts s = length (filter is_exchange (effects s))"

definition printed :: "log_line \<Rightarrow> hookup \<Rightarrow> nat" where
  "printed l s = count_list (effects s) (Printed l)"

text \<open>
  A request that makes the handler hand over a result: it is on the callback path and
  carries a non-empty first \<^verbatim>\<open>code\<close> and a non-empty first \<^verbatim>\<open>state\<close>.
\<close>

definition first_value :: "(string \<rightharpoonup> string list) \<Rightarrow> string \<Rightarrow> string option" where
  "first_value ps k = (case ps k of Some (v # _) \<Rightarrow> Some v | _ \<Rightarrow> None)"

definition has_value :: "(string \<rightharpoonup> string list) \<Rightarrow> string \<Rightarrow> bool" where
  "has_value ps k = truthy (first_value ps k)"

definition delivers :: "request \<Rightarrow> bool" where
  "delivers req \<longleftrightarrow>
     prefix ''/callback'' (path req) \<and> has_value (params req) ''code'' \<and> has_value (params req) ''state''"

fun requests_of :: "event list \<Rightarrow> request list" where
  "requests_of [] = []"
| "requests_of (Request r # es) = r # requests_of es"
| "requests_of (_ # es) = requests_of es"

text \<open>The last request of a list that hands over a result, if there is one.\<close>

fun last_delivering :: "request list \<Rightarrow> request option" where
  "last_delivering [] = None"
| "last_delivering (r # rs) =
     (case last_delivering rs of
        Some r' \<Rightarrow> Some r'
      | None \<Rightarrow> if delivers r then Some r else None)"

text \<open>
  An event that lets the polling loop go on when no result has been handed over yet: a
  request that hands over nothing, or a poll within the timeout.
\<close>

fun quiet :: "real \<Rightarrow> event \<Rightarrow> bool" where
  "quiet tmo (Request r) = (\<not> delivers r)"
| "quiet tmo (Poll elapsed) = (elapsed \<le> tmo)"
| "quiet tmo Interrupt = False"

text \<open>The object holds no pending authorization: no code, no state, no flag.\<close>

definition cleared :: "hookup \<Rightarrow> bool" where
  "cleared s \<longleftrightarrow>
     todoist_response_auth_code s = None \<and> todoist_response_state s = None \<and>
     \<not> todoist_oauth_callback_received s"

subsection \<open>Two views of authenticate used in the proofs\<close>

text \<open>
  The state in which the wait for \<^verbatim>\<open>self.httpd\<close> begins (browser opened, listener thread
  started), and the part of \<^verbatim>\<open>authenticate\<close> after the listener has been shut down: the
  comparison of the states, the exchange and the saving of the token.
\<close>

definition listening :: "attempt \<Rightarrow> hookup \<Rightarrow> hookup" where
  "listening a s = start_local_server (emit (BrowserOpen (uuid4 a)) s)"

definition finish :: "attempt \<Rightarrow> hookup \<Rightarrow> bool outcome \<times> hookup" where
  "finish a s5 =
     (if uuid4 a \<noteq> py_str (todoist_response_state s5) then
        (Returned False,
         shutdown_local_server [] (reset_auth [] (emit (Printed StateMismatch_line) s5)))
      else
        (case get_auth_token a (todoist_response_auth_code s5) of
           Inl e \<Rightarrow> (Raised e, emit (ExchangeCall (todoist_response_auth_code s5)) s5)
         | Inr access_token \<Rightarrow>
             (Returned True,
              save_access_token (save_outcome a)
                ((emit (ExchangeCall (todoist_response_auth_code s5)) s5)
                   \<lparr>todoist_api_token := Some access_token\<rparr>))))"

subsection \<open>Concrete inputs\<close>

definition demo_uuid :: string where
  "demo_uuid = ''0b5e0c3e-5f5a-4c57-9d0c-2a6f1e3b7a11''"

text \<open>The redirect \<^verbatim>\<open>GET /callback?code=<code>&state=<state>\<close>.\<close>

definition callback_request :: "string \<Rightarrow> string \<Rightarrow> request" where
  "callback_request code state =
     \<lparr>path = ''/callback?code='' @ code @ ''&state='' @ state,
      params = [''code'' \<mapsto> [code], ''state'' \<mapsto> [state]]\<rparr>"

text \<open>The request \<^verbatim>\<open>GET /callback?code=<code>\<close>, which carries no state.\<close>

definition code_only_request :: "string \<Rightarrow> request" where
  "code_only_request code =
     \<lparr>path = ''/callback?code='' @ code, params = [''code'' \<mapsto> [code]]\<rparr>"

definition refusing_endpoint :: "string option \<Rightarrow> py_exception + string" where
  "refusing_endpoint code = Inl (LibraryError ''400 Bad Request'')"

definition granting_endpoint :: "string option \<Rightarrow> py_exception + string" where
  "granting_endpoint code = Inr ''tok_xyz''"

definition demo_attempt ::
  "event list \<Rightarrow> request list \<Rightarrow> (string option \<Rightarrow> py_exception + string) \<Rightarrow> attempt" where
  "demo_attempt es lt endpoint =
     \<lparr>uuid4 = demo_uuid, sched = es, late = lt, get_auth_token = endpoint,
      save_outcome = SaveOk\<rparr>"

section \<open>Properties of the truncation\<close>

lemma length_join_snoc: "length (join sep xs) \<le> length (join sep (xs @ [x]))"
  by (induction sep xs rule: join.induct) auto

lemma size_of_snoc: "size_of enc xs \<le> size_of enc (xs @ [x])"
  using length_join_snoc[of "'', ''" "map enc xs" "enc x"] by (simp add: size_of_def dumps_def)

lemma size_of_append: "size_of enc xs \<le> size_of enc (xs @ ys)"
proof (induction ys rule: rev_induct)
  case Nil
  then show ?case by simp
next
  case (snoc y ys)
  have "size_of enc (xs @ ys) \<le> size_of enc ((xs @ ys) @ [y])"
    by (rule size_of_snoc)
  with snoc show ?case by simp
qed

lemma size_of_prefix: "prefix xs ys \<Longrightarrow> size_of enc xs \<le> size_of enc ys"
  by (auto simp: prefix_def size_of_append)

lemma truncate_loop_extends:
  "\<exists>zs. truncate_loop enc l acc rest = acc @ zs \<and> prefix zs rest"
proof (induction rest arbitrary: acc)
  case Nil
  then show ?case by simp
next
  case (Cons a rest)
  show ?case
  proof (cases "size_of enc (acc @ [a]) > l")
    case True
    then show ?thesis by simp
  next
    case False
    from Cons[of "acc @ [a]"] obtain zs where
      "truncate_loop enc l (acc @ [a]) rest = (acc @ [a]) @ zs" "prefix zs rest"
      by blast
    with False show ?thesis
      by (intro exI[of _ "a # zs"]) simp
  qed
qed

lemma truncate_loop_fits:
  "acc \<noteq> [] \<longrightarrow> size_of enc acc \<le> l \<Longrightarrow> truncate_loop enc l acc rest \<noteq> [] \<Longrightarrow>
   size_of enc (truncate_loop enc l acc rest) \<le> l"
proof (induction rest arbitrary: acc)
  case Nil
  then show ?case by simp
next
  case (Cons a rest)
  show ?case
  proof (cases "size_of enc (acc @ [a]) > l")
    case True
    with Cons.prems show ?thesis by simp
  next
    case False
    with Cons.prems Cons.IH[of "acc @ [a]"] show ?thesis by simp
  qed
qed

lemma truncate_loop_longest:
  "prefix ys (acc @ rest) \<Longrightarrow> size_of enc ys \<le> l \<Longrightarrow>
   length ys \<le> length (truncate_loop enc l acc rest) \<or> length ys \<le> length acc"
proof (induction rest arbitrary: acc)
  case Nil
  then show ?case by (auto dest: prefix_length_le)
next
  case (Cons a rest)
  show ?case
  proof (cases "size_of enc (acc @ [a]) > l")
    case True
    show ?thesis
    proof (rule ccontr)
      assume "\<not> ?thesis"
      then have len: "length (acc @ [a]) \<le> length ys" by simp
      from Cons.prems(1) have "prefix ys ((acc @ [a]) @ rest)" by simp
      moreover have "prefix (acc @ [a]) ((acc @ [a]) @ rest)" by simp
      ultimately have "prefix (acc @ [a]) ys"
        using len prefix_length_prefix by blast
      then have "size_of enc (acc @ [a]) \<le> size_of enc ys"
        by (rule size_of_prefix)
      with True Cons.prems(2) show False by simp
    qed
  next
    case False
    from Cons.prems(1) have "prefix ys ((acc @ [a]) @ rest)" by simp
    from Cons.IH[OF this Cons.prems(2)] False
    have "length ys \<le> length (truncate_loop enc l (acc @ [a]) rest) \<or>
          length ys \<le> Suc (length acc)"
      by simp
    moreover obtain zs where "truncate_loop enc l (acc @ [a]) rest = (acc @ [a]) @ zs"
      using truncate_loop_extends by blast
    ultimately show ?thesis using False by auto
  qed
qed

text \<open>
  Claim C10. For every task list and byte limit, \<open>truncate_data_to_limit\<close> returns a
  prefix of the list; a non-empty result serializes to at most \<open>limit_bytes\<close> bytes; and
  no non-empty prefix of the list that fits the limit is longer than the result.
\<close>

theorem truncate_data_to_limit_longest_prefix:
  "prefix (truncate_data_to_limit enc task_list limit_bytes) task_list \<and>
   (truncate_data_to_limit enc task_list limit_bytes \<noteq> [] \<longrightarrow>
      size_of enc (truncate_data_to_limit enc task_list limit_bytes) \<le> limit_bytes) \<and>
   (\<forall>ys. prefix ys task_list \<and> ys \<noteq> [] \<and> size_of enc ys \<le> limit_bytes \<longrightarrow>
      length ys \<le> length (truncate_data_to_limit enc task_list limit_bytes))"
proof (intro conjI allI impI)
  show "prefix (truncate_data_to_limit enc task_list limit_bytes) task_list"
    using truncate_loop_extends[of enc limit_bytes "[]" task_list]
    by (auto simp: truncate_data_to_limit_def)
next
  assume "truncate_data_to_limit enc task_list limit_bytes \<noteq> []"
  then show "size_of enc (truncate_data_to_limit enc task_list limit_bytes) \<le> limit_bytes"
    using truncate_loop_fits[of "[]" enc limit_bytes task_list]
    by (simp add: truncate_data_to_limit_def)
next
  fix ys
  assume "prefix ys task_list \<and> ys \<noteq> [] \<and> size_of enc ys \<le> limit_bytes"
  then show "length ys \<le> length (truncate_data_to_limit enc task_list limit_bytes)"
    using truncate_loop_longest[of ys "[]" task_list enc limit_bytes]
    by (auto simp: truncate_data_to_limit_def)
qed

theorem truncate_data_to_limit_longest_prefix_witness:
  "truncate_data_to_limit (\<lambda>x. x) [''1'', ''22'', ''333''] 8 \<noteq> [] \<and>
   size_of (\<lambda>x. x) (truncate_data_to_limit (\<lambda>x. x) [''1'', ''22'', ''333''] 8) \<le> 8 \<and>
   prefix [''1''] [''1'', ''22'', ''333''] \<and> [''1''] \<noteq> [] \<and> size_of (\<lambda>x. x) [''1''] \<le> 8 \<and>
   length [''1''] \<le> length (truncate_data_to_limit (\<lambda>x. x) [''1'', ''22'', ''333''] 8)"
  using truncate_data_to_limit_longest_prefix[of "\<lambda>x. x" "[''1'', ''22'', ''333'']" 8]
  by (simp add: truncate_data_to_limit_def size_of_def dumps_def)

section \<open>Properties of the listener\<close>

lemma wait_httpd_sound: "wait_httpd s = Some s' \<Longrightarrow> httpd s \<noteq> None \<and> s' = s"
  by (rule wait_httpd.raw_induct[rotated 1, where P = "\<lambda>x y. httpd x \<noteq> None \<and> y = x"])
     (auto split: if_splits)

lemma wait_httpd_Some: "httpd s \<noteq> None \<Longrightarrow> wait_httpd s = Some s"
  by (subst wait_httpd.simps) simp

lemma wait_httpd_None: "httpd s = None \<Longrightarrow> wait_httpd s = None"
  using wait_httpd_sound[of s] by (cases "wait_httpd s") auto

lemma do_GET_delivers:
  "delivers r \<Longrightarrow> do_GET r s =
     (Status200, None,
      s\<lparr>todoist_response_auth_code := first_value (params r) ''code'',
        todoist_response_state := first_value (params r) ''state'',
        todoist_oauth_callback_received := True\<rparr>)"
  by (auto simp: delivers_def has_value_def truthy_def first_value_def do_GET_def get_first_def
      split: option.splits list.splits)

lemma do_GET_not_delivers:
  "\<not> delivers r \<Longrightarrow> \<exists>resp e. do_GET r s = (resp, e, s)"
  by (auto simp: delivers_def has_value_def truthy_def first_value_def do_GET_def get_first_def
      split: option.splits list.splits)


lemma emit_fields [simp]:
  "todoist_oauth_timeout (emit e s) = todoist_oauth_timeout s"
  "todoist_response_auth_code (emit e s) = todoist_response_auth_code s"
  "todoist_response_state (emit e s) = todoist_response_state s"
  "todoist_oauth_callback_received (emit e s) = todoist_oauth_callback_received s"
  "todoist_api_token (emit e s) = todoist_api_token s"
  "httpd (emit e s) = httpd s"
  "access_token_file (emit e s) = access_token_file s"
  "port_taken (emit e s) = port_taken s"
  "effects (emit e s) = effects s @ [e]"
  by (simp_all add: emit_def)

lemma exchange_attempts_emit [simp]:
  "exchange_attempts (emit e s) = (if is_exchange e then Suc (exchange_attempts s) else exchange_attempts s)"
  by (simp add: exchange_attempts_def)

lemma exchange_attempts_update [simp]:
  "exchange_attempts (s\<lparr>todoist_response_auth_code := c\<rparr>) = exchange_attempts s"
  "exchange_attempts (s\<lparr>todoist_response_state := st\<rparr>) = exchange_attempts s"
  "exchange_attempts (s\<lparr>todoist_oauth_callback_received := b\<rparr>) = exchange_attempts s"
  "exchange_attempts (s\<lparr>todoist_api_token := tk\<rparr>) = exchange_attempts s"
  "exchange_attempts (s\<lparr>httpd := h\<rparr>) = exchange_attempts s"
  "exchange_attempts (s\<lparr>access_token_file := f\<rparr>) = exchange_attempts s"
  by (simp_all add: exchange_attempts_def)

lemma serve_closed [simp]: "httpd s \<noteq> Some Serving \<Longrightarrow> serve r s = s"
  by (simp add: serve_def)

lemma serve_delivers:
  "delivers r \<Longrightarrow> httpd s = Some Serving \<Longrightarrow>
   serve r s = emit (Responded Status200)
     (s\<lparr>todoist_response_auth_code := first_value (params r) ''code'',
        todoist_response_state := first_value (params r) ''state'',
        todoist_oauth_callback_received := True\<rparr>)"
  by (simp add: serve_def do_GET_delivers)

lemma serve_not_delivers:
  "\<not> delivers r \<Longrightarrow> httpd s = Some Serving \<Longrightarrow>
   \<exists>resp. serve r s = emit (Responded resp) s \<or>
          (\<exists>e. serve r s = emit (HandlerRaised e) (emit (Responded resp) s))"
proof -
  assume nd: "\<not> delivers r" and sv: "httpd s = Some Serving"
  from do_GET_not_delivers[OF nd, of s] obtain resp e where g: "do_GET r s = (resp, e, s)"
    by blast
  show ?thesis
  proof (cases e)
    case None
    with g sv have "serve r s = emit (Responded resp) s" by (simp add: serve_def)
    then show ?thesis by blast
  next
    case (Some x)
    with g sv have "serve r s = emit (HandlerRaised x) (emit (Responded resp) s)"
      by (simp add: serve_def)
    then show ?thesis by blast
  qed
qed


lemma serve_fields [simp]:
  "todoist_oauth_timeout (serve r s) = todoist_oauth_timeout s"
  "todoist_api_token (serve r s) = todoist_api_token s"
  "httpd (serve r s) = httpd s"
  "access_token_file (serve r s) = access_token_file s"
  "port_taken (serve r s) = port_taken s"
  "exchange_attempts (serve r s) = exchange_attempts s"
proof -
  consider "httpd s \<noteq> Some Serving" | "httpd s = Some Serving" "delivers r"
    | "httpd s = Some Serving" "\<not> delivers r" by blast
  then have "todoist_oauth_timeout (serve r s) = todoist_oauth_timeout s \<and>
    todoist_api_token (serve r s) = todoist_api_token s \<and>
    httpd (serve r s) = httpd s \<and>
    access_token_file (serve r s) = access_token_file s \<and>
    port_taken (serve r s) = port_taken s \<and>
    exchange_attempts (serve r s) = exchange_attempts s"
  proof cases
    case 1 then show ?thesis by simp
  next
    case 2 then show ?thesis by (simp add: serve_delivers)
  next
    case 3 then show ?thesis using serve_not_delivers[of r s] by auto
  qed
  then show "todoist_oauth_timeout (serve r s) = todoist_oauth_timeout s"
  "todoist_api_token (serve r s) = todoist_api_token s"
  "httpd (serve r s) = httpd s"
  "access_token_file (serve r s) = access_token_file s"
  "port_taken (serve r s) = port_taken s"
  "exchange_attempts (serve r s) = exchange_attempts s" by simp_all
qed

lemma serve_quiet [simp]:
  assumes "\<not> delivers r"
  shows "todoist_response_auth_code (serve r s) = todoist_response_auth_code s"
    and "todoist_response_state (serve r s) = todoist_response_state s"
    and "todoist_oauth_callback_received (serve r s) = todoist_oauth_callback_received s"
  using serve_not_delivers[OF assms, of s] by (cases "httpd s = Some Serving"; auto)+

lemma serve_all_fields [simp]:
  "todoist_oauth_timeout (serve_all rs s) = todoist_oauth_timeout s"
  "todoist_api_token (serve_all rs s) = todoist_api_token s"
  "httpd (serve_all rs s) = httpd s"
  "access_token_file (serve_all rs s) = access_token_file s"
  "port_taken (serve_all rs s) = port_taken s"
  "exchange_attempts (serve_all rs s) = exchange_attempts s"
  by (induction rs arbitrary: s; simp)+

lemma serve_all_closed [simp]: "httpd s \<noteq> Some Serving \<Longrightarrow> serve_all rs s = s"
  by (induction rs arbitrary: s) simp_all

lemma serve_all_quiet [simp]:
  assumes "\<forall>r\<in>set rs. \<not> delivers r"
  shows "todoist_response_auth_code (serve_all rs s) = todoist_response_auth_code s"
    and "todoist_response_state (serve_all rs s) = todoist_response_state s"
    and "todoist_oauth_callback_received (serve_all rs s) = todoist_oauth_callback_received s"
  using assms by (induction rs arbitrary: s; simp)+

lemma serve_all_append: "serve_all (xs @ ys) s = serve_all ys (serve_all xs s)"
  by (induction xs arbitrary: s) simp_all

lemma serve_all_last:
  assumes "httpd s = Some Serving"
  shows "todoist_response_auth_code (serve_all rs s) =
           (case last_delivering rs of None \<Rightarrow> todoist_response_auth_code s
            | Some r \<Rightarrow> first_value (params r) ''code'')"
    and "todoist_response_state (serve_all rs s) =
           (case last_delivering rs of None \<Rightarrow> todoist_response_state s
            | Some r \<Rightarrow> first_value (params r) ''state'')"
    and "todoist_oauth_callback_received (serve_all rs s) =
           (case last_delivering rs of None \<Rightarrow> todoist_oauth_callback_received s
            | Some r \<Rightarrow> True)"
  using assms
  by (induction rs arbitrary: s; auto simp: serve_delivers split: option.splits)+

lemma printed_emit [simp]:
  "printed l (emit e s) = (if e = Printed l then Suc (printed l s) else printed l s)"
  by (simp add: printed_def)

lemma printed_update [simp]:
  "printed l (s\<lparr>todoist_response_auth_code := c\<rparr>) = printed l s"
  "printed l (s\<lparr>todoist_response_state := st\<rparr>) = printed l s"
  "printed l (s\<lparr>todoist_oauth_callback_received := b\<rparr>) = printed l s"
  "printed l (s\<lparr>todoist_api_token := tk\<rparr>) = printed l s"
  "printed l (s\<lparr>httpd := h\<rparr>) = printed l s"
  "printed l (s\<lparr>access_token_file := f\<rparr>) = printed l s"
  by (simp_all add: printed_def)

lemma printed_serve [simp]: "printed l (serve r s) = printed l s"
proof -
  consider "httpd s \<noteq> Some Serving" | "httpd s = Some Serving" "delivers r"
    | "httpd s = Some Serving" "\<not> delivers r" by blast
  then show ?thesis
  proof cases
    case 1 then show ?thesis by simp
  next
    case 2 then show ?thesis by (simp add: serve_delivers)
  next
    case 3 then show ?thesis using serve_not_delivers[of r s] by auto
  qed
qed

lemma printed_serve_all [simp]: "printed l (serve_all rs s) = printed l s"
  by (induction rs arbitrary: s) simp_all

lemma shutdown_closed [simp]: "httpd s = Some Closed \<Longrightarrow> shutdown_local_server lt s = s"
  by (cases s) (simp add: shutdown_local_server_def)

lemma shutdown_eq:
  "shutdown_local_server lt s = (serve_all lt s)\<lparr>httpd := (if httpd s = None then None else Some Closed)\<rparr>"
  by (cases "httpd s = None") (simp_all add: shutdown_local_server_def)

lemma shutdown_fields [simp]:
  "todoist_oauth_timeout (shutdown_local_server lt s) = todoist_oauth_timeout s"
  "todoist_api_token (shutdown_local_server lt s) = todoist_api_token s"
  "httpd (shutdown_local_server lt s) = (if httpd s = None then None else Some Closed)"
  "access_token_file (shutdown_local_server lt s) = access_token_file s"
  "port_taken (shutdown_local_server lt s) = port_taken s"
  "exchange_attempts (shutdown_local_server lt s) = exchange_attempts s"
  "printed l (shutdown_local_server lt s) = printed l s"
  by (simp_all add: shutdown_eq)

lemma shutdown_pending:
  "todoist_response_auth_code (shutdown_local_server lt s) = todoist_response_auth_code (serve_all lt s)"
  "todoist_response_state (shutdown_local_server lt s) = todoist_response_state (serve_all lt s)"
  "todoist_oauth_callback_received (shutdown_local_server lt s) =
     todoist_oauth_callback_received (serve_all lt s)"
  by (simp_all add: shutdown_eq)

lemma shutdown_idem:
  "shutdown_local_server l2 (shutdown_local_server l1 s) = shutdown_local_server l1 s"
  by (cases "httpd s = None") (simp_all add: shutdown_local_server_def)

lemma reset_auth_fields [simp]:
  "todoist_oauth_timeout (reset_auth lt s) = todoist_oauth_timeout s"
  "todoist_api_token (reset_auth lt s) = None"
  "httpd (reset_auth lt s) = (if httpd s = None then None else Some Closed)"
  "access_token_file (reset_auth lt s) = access_token_file s"
  "port_taken (reset_auth lt s) = port_taken s"
  "exchange_attempts (reset_auth lt s) = exchange_attempts s"
  "printed l (reset_auth lt s) = printed l s"
  by (simp_all add: reset_auth_def)

lemma reset_auth_cleared:
  "(\<forall>r\<in>set lt. \<not> delivers r) \<or> httpd s \<noteq> Some Serving \<Longrightarrow> cleared (reset_auth lt s)"
  by (auto simp: reset_auth_def cleared_def shutdown_pending)

lemma reset_auth_Nil_effects [simp]: "effects (reset_auth [] s) = effects s"
  by (simp add: reset_auth_def shutdown_eq)

lemma start_local_server_fields [simp]:
  "todoist_oauth_timeout (start_local_server s) = todoist_oauth_timeout s"
  "todoist_api_token (start_local_server s) = None"
  "httpd (start_local_server s) =
     (if port_taken s then (if httpd s = None then None else Some Closed) else Some Serving)"
  "access_token_file (start_local_server s) = access_token_file s"
  "port_taken (start_local_server s) = port_taken s"
  "exchange_attempts (start_local_server s) = exchange_attempts s"
  "printed l (start_local_server s) = printed l s"
  "todoist_response_auth_code (start_local_server s) = None"
  "todoist_response_state (start_local_server s) = None"
  "todoist_oauth_callback_received (start_local_server s) = False"
  using reset_auth_cleared[of "[]" s]
  by (simp_all add: start_local_server_def Let_def cleared_def)

lemma wait_loop_frame:
  "wait_loop lt es s = Some (w, s') \<Longrightarrow>
   todoist_oauth_timeout s' = todoist_oauth_timeout s \<and>
   access_token_file s' = access_token_file s \<and>
   port_taken s' = port_taken s \<and>
   exchange_attempts s' = exchange_attempts s \<and>
   (httpd s' = None \<longleftrightarrow> httpd s = None) \<and>
   printed StateMismatch_line s' = printed StateMismatch_line s"
  by (induction lt es s rule: wait_loop.induct) (auto split: if_splits)

lemma wait_loop_returns:
  "Poll t \<in> set es \<Longrightarrow> t > todoist_oauth_timeout s \<Longrightarrow> \<exists>w s'. wait_loop lt es s = Some (w, s')"
  by (induction lt es s rule: wait_loop.induct) auto

lemma wait_loop_not_interrupted:
  "Interrupt \<notin> set es \<Longrightarrow> wait_loop lt es s = Some (w, s') \<Longrightarrow> w \<noteq> Interrupted"
  by (induction lt es s rule: wait_loop.induct) (auto split: if_splits)

lemma serve_all_state_inv:
  "\<forall>r\<in>set rs. delivers r \<longrightarrow> first_value (params r) ''state'' \<noteq> Some u \<Longrightarrow>
   todoist_response_state s \<noteq> Some u \<Longrightarrow> todoist_response_state (serve_all rs s) \<noteq> Some u"
proof (induction rs arbitrary: s)
  case Nil then show ?case by simp
next
  case (Cons r rs)
  have "todoist_response_state (serve r s) \<noteq> Some u"
  proof (cases "delivers r \<and> httpd s = Some Serving")
    case True
    with Cons.prems show ?thesis by (simp add: serve_delivers)
  next
    case False
    with Cons.prems show ?thesis by (cases "delivers r") auto
  qed
  with Cons show ?case by simp
qed

lemma wait_loop_state_inv:
  "wait_loop lt es s = Some (w, s') \<Longrightarrow>
   \<forall>r\<in>set (requests_of es) \<union> set lt. delivers r \<longrightarrow> first_value (params r) ''state'' \<noteq> Some u \<Longrightarrow>
   todoist_response_state s \<noteq> Some u \<Longrightarrow>
   todoist_response_state (shutdown_local_server lt s') \<noteq> Some u"
proof (induction lt es s rule: wait_loop.induct)
  case (1 lt s)
  then show ?case by simp
next
  case (2 lt r es s)
  have "todoist_response_state (serve r s) \<noteq> Some u"
    using serve_all_state_inv[of "[r]" u s] 2 by simp
  with 2 show ?case by simp
next
  case (3 lt es s)
  then show ?case using serve_all_state_inv[of lt u s] by (simp add: shutdown_pending)
next
  case (4 lt elapsed es s)
  then show ?case
    using serve_all_state_inv[of lt u s]
      serve_all_state_inv[of lt u "(emit (Printed Timeout_line) s)\<lparr>todoist_response_auth_code := None,
          todoist_response_state := None,
          todoist_api_token := None,
          todoist_oauth_callback_received := False\<rparr>"]
    by (auto split: if_splits simp: reset_auth_def shutdown_pending)
qed

section \<open>Properties of authenticate\<close>

lemma save_access_token_fields [simp]:
  "todoist_oauth_timeout (save_access_token w s) = todoist_oauth_timeout s"
  "todoist_api_token (save_access_token w s) = todoist_api_token s"
  "httpd (save_access_token w s) = httpd s"
  "port_taken (save_access_token w s) = port_taken s"
  "exchange_attempts (save_access_token w s) = exchange_attempts s"
  "printed l (save_access_token w s) = printed l s"
  "todoist_response_auth_code (save_access_token w s) = todoist_response_auth_code s"
  "todoist_response_state (save_access_token w s) = todoist_response_state s"
  "todoist_oauth_callback_received (save_access_token w s) = todoist_oauth_callback_received s"
  "access_token_file (save_access_token w s) =
     (case w of SaveOk \<Rightarrow> TokenFile (todoist_api_token s)
      | OpenFailed \<Rightarrow> access_token_file s | DumpFailed \<Rightarrow> BrokenFile)"
  by (cases w; simp add: save_access_token_def)+

lemma listening_fields [simp]:
  "todoist_oauth_timeout (listening a s) = todoist_oauth_timeout s"
  "todoist_api_token (listening a s) = None"
  "httpd (listening a s) =
     (if port_taken s then (if httpd s = None then None else Some Closed) else Some Serving)"
  "access_token_file (listening a s) = access_token_file s"
  "port_taken (listening a s) = port_taken s"
  "exchange_attempts (listening a s) = exchange_attempts s"
  "printed l (listening a s) = printed l s"
  "todoist_response_auth_code (listening a s) = None"
  "todoist_response_state (listening a s) = None"
  "todoist_oauth_callback_received (listening a s) = False"
  by (simp_all add: listening_def)

lemma authenticate_alt:
  "authenticate a s =
     (case wait_httpd (listening a s) of
        None \<Rightarrow> None
      | Some s3 \<Rightarrow>
          (case wait_loop (late a) (sched a) s3 of
             None \<Rightarrow> None
           | Some (Interrupted, s4) \<Rightarrow>
               Some (Exited 1,
                     shutdown_local_server []
                       (reset_auth (late a) (emit (Printed Interrupt_line) s4)))
           | Some (_, s4) \<Rightarrow> Some (finish a (shutdown_local_server (late a) s4))))"
  unfolding authenticate_def Let_def listening_def finish_def
  by (auto split: option.splits wait_result.splits sum.splits)

lemma authenticate_running:
  assumes "httpd (listening a s) \<noteq> None"
  shows "authenticate a s =
     (case wait_loop (late a) (sched a) (listening a s) of
        None \<Rightarrow> None
      | Some (Interrupted, s4) \<Rightarrow>
          Some (Exited 1,
                shutdown_local_server []
                  (reset_auth (late a) (emit (Printed Interrupt_line) s4)))
      | Some (_, s4) \<Rightarrow> Some (finish a (shutdown_local_server (late a) s4)))"
  unfolding authenticate_alt wait_httpd_Some[OF assms] by simp

lemma authenticate_hangs:
  assumes "httpd (listening a s) = None"
  shows "authenticate a s = None"
  unfolding authenticate_alt wait_httpd_None[OF assms] by simp

lemma authenticate_cases:
  assumes "authenticate a s = Some (out, s')"
  obtains
    (interrupted) s4 where
      "httpd (listening a s) \<noteq> None"
      "wait_loop (late a) (sched a) (listening a s) = Some (Interrupted, s4)"
      "out = Exited 1"
      "s' = shutdown_local_server [] (reset_auth (late a) (emit (Printed Interrupt_line) s4))"
  | (finished) w s4 where
      "httpd (listening a s) \<noteq> None"
      "wait_loop (late a) (sched a) (listening a s) = Some (w, s4)" "w \<noteq> Interrupted"
      "finish a (shutdown_local_server (late a) s4) = (out, s')"
proof -
  have h: "httpd (listening a s) \<noteq> None"
    using assms authenticate_hangs[of a s] by (cases "httpd (listening a s)") auto
  note run = authenticate_running[OF h]
  from assms run obtain w s4 where wl: "wait_loop (late a) (sched a) (listening a s) = Some (w, s4)"
    by (cases "wait_loop (late a) (sched a) (listening a s)") auto
  show thesis
  proof (cases "w = Interrupted")
    case True
    with assms wl have "out = Exited 1"
      "s' = shutdown_local_server [] (reset_auth (late a) (emit (Printed Interrupt_line) s4))"
      unfolding run by simp_all
    with h wl True show ?thesis by (intro interrupted[of s4]) simp_all
  next
    case False
    with assms wl have "finish a (shutdown_local_server (late a) s4) = (out, s')"
      unfolding run by (cases w) simp_all
    with h wl False show ?thesis by (intro finished[of w s4])
  qed
qed

lemma finish_cases:
  assumes "finish a s5 = (out, s')"
  obtains
    (mismatch) "uuid4 a \<noteq> py_str (todoist_response_state s5)" "out = Returned False"
      "s' = shutdown_local_server [] (reset_auth [] (emit (Printed StateMismatch_line) s5))"
  | (failed) e where "uuid4 a = py_str (todoist_response_state s5)"
      "get_auth_token a (todoist_response_auth_code s5) = Inl e" "out = Raised e"
      "s' = emit (ExchangeCall (todoist_response_auth_code s5)) s5"
  | (stored) tok where "uuid4 a = py_str (todoist_response_state s5)"
      "get_auth_token a (todoist_response_auth_code s5) = Inr tok" "out = Returned True"
      "s' = save_access_token (save_outcome a)
              ((emit (ExchangeCall (todoist_response_auth_code s5)) s5)\<lparr>todoist_api_token := Some tok\<rparr>)"
  using assms unfolding finish_def by (auto split: if_splits sum.splits)

section \<open>Further properties of authenticate\<close>

lemma finish_frame:
  assumes "finish a s5 = (out, s')" "httpd s5 = Some Closed"
  shows "httpd s' = Some Closed" "port_taken s' = port_taken s5"
    "todoist_oauth_timeout s' = todoist_oauth_timeout s5"
  using assms(1)
  by (cases rule: finish_cases; simp add: assms(2))+

lemma wait_loop_httpd:
  "wait_loop lt es s = Some (w, s') \<Longrightarrow> httpd s \<noteq> None \<Longrightarrow>
   httpd (shutdown_local_server lt s') = Some Closed"
  using wait_loop_frame[of lt es s w s'] by simp

lemma wait_loop_file:
  "wait_loop lt es s = Some (w, s') \<Longrightarrow>
   access_token_file (shutdown_local_server lt s') = access_token_file s \<and>
   exchange_attempts (shutdown_local_server lt s') = exchange_attempts s"
  using wait_loop_frame[of lt es s w s'] by simp

lemma wait_loop_token:
  "wait_loop lt es s = Some (w, s') \<Longrightarrow> todoist_api_token s = None \<Longrightarrow>
   todoist_api_token s' = None"
  by (induction lt es s rule: wait_loop.induct) (auto split: if_splits)

lemma py_str_mismatch:
  "length u = 36 \<Longrightarrow> v \<noteq> Some u \<Longrightarrow> u \<noteq> py_str v"
  by (cases v) (auto simp: py_str_def)

lemma cleared_shutdown_Nil [simp]: "cleared (shutdown_local_server [] s) = cleared s"
  by (simp add: cleared_def shutdown_pending)

lemma run_without_match:
  assumes len: "length (uuid4 a) = 36"
    and differ: "\<forall>r\<in>set (requests_of (sched a)) \<union> set (late a).
                   delivers r \<longrightarrow> first_value (params r) ''state'' \<noteq> Some (uuid4 a)"
    and nint: "Interrupt \<notin> set (sched a)"
    and poll: "Poll t \<in> set (sched a)" "todoist_oauth_timeout s < t"
    and port: "\<not> port_taken s"
  shows "\<exists>w s4 s'. wait_loop (late a) (sched a) (listening a s) = Some (w, s4) \<and> w \<noteq> Interrupted \<and>
           authenticate a s = Some (Returned False, s') \<and> cleared s' \<and> httpd s' = Some Closed \<and>
           exchange_attempts s' = exchange_attempts s \<and>
           printed StateMismatch_line s' = Suc (printed StateMismatch_line s) \<and>
           printed Timeout_line s' = printed Timeout_line s4"
proof -
  let ?s2 = "listening a s"
  from port have h: "httpd ?s2 \<noteq> None" by simp
  from poll obtain w s4 where wl: "wait_loop (late a) (sched a) ?s2 = Some (w, s4)"
    using wait_loop_returns[of t "sched a" ?s2 "late a"] by auto
  from nint wl have w: "w \<noteq> Interrupted" by (rule wait_loop_not_interrupted)
  let ?s5 = "shutdown_local_server (late a) s4"
  have "todoist_response_state ?s5 \<noteq> Some (uuid4 a)"
    using wait_loop_state_inv[OF wl differ] by simp
  with len have ne: "uuid4 a \<noteq> py_str (todoist_response_state ?s5)"
    by (rule py_str_mismatch)
  let ?s' = "shutdown_local_server [] (reset_auth [] (emit (Printed StateMismatch_line) ?s5))"
  from ne have fin: "finish a ?s5 = (Returned False, ?s')" by (simp add: finish_def)
  from wl w have auth: "authenticate a s = Some (Returned False, ?s')"
    unfolding authenticate_running[OF h] fin[symmetric] by (cases w) simp_all
  note fr = wait_loop_frame[OF wl]
  have "cleared ?s'" using reset_auth_cleared[of "[]"] by simp
  moreover have "httpd ?s' = Some Closed" using fr h by simp
  moreover have "exchange_attempts ?s' = exchange_attempts s" using fr by simp
  moreover have "printed StateMismatch_line ?s' = Suc (printed StateMismatch_line s)"
    using fr by simp
  moreover have "printed Timeout_line ?s' = printed Timeout_line s4" by simp
  ultimately show ?thesis using wl w auth by blast
qed

lemma wait_loop_quiet:
  "wait_loop lt es s = Some (w, s') \<Longrightarrow> \<forall>r\<in>set (requests_of es). \<not> delivers r \<Longrightarrow>
   \<not> todoist_oauth_callback_received s \<Longrightarrow> w \<noteq> Interrupted \<Longrightarrow>
   w = TimedOut \<and> printed Timeout_line s' = Suc (printed Timeout_line s)"
  by (induction lt es s rule: wait_loop.induct) (auto split: if_splits)

lemma wait_loop_pre:
  "\<forall>e\<in>set pre. quiet (todoist_oauth_timeout s) e \<Longrightarrow> \<not> todoist_oauth_callback_received s \<Longrightarrow>
   wait_loop lt (pre @ es) s = wait_loop lt es (serve_all (requests_of pre) s)"
proof (induction pre arbitrary: s)
  case Nil
  then show ?case by simp
next
  case (Cons e pre)
  then show ?case by (cases e) simp_all
qed

lemma wait_loop_requests:
  "wait_loop lt (map Request rs @ es) s = wait_loop lt es (serve_all rs s)"
  by (induction rs arbitrary: s) simp_all

lemma requests_of_quiet:
  "\<forall>e\<in>set pre. quiet tmo e \<Longrightarrow> \<forall>r\<in>set (requests_of pre). \<not> delivers r"
proof (induction pre)
  case Nil
  then show ?case by simp
next
  case (Cons e pre)
  then show ?case by (cases e) simp_all
qed

lemma last_delivering_delivers: "last_delivering rs = Some r \<Longrightarrow> delivers r"
  by (induction rs) (auto split: option.splits if_splits)

lemma last_delivering_None: "last_delivering rs = None \<Longrightarrow> \<forall>r\<in>set rs. \<not> delivers r"
  by (induction rs) (auto split: option.splits if_splits)

lemma last_delivering_exists: "\<exists>r\<in>set rs. delivers r \<Longrightarrow> last_delivering rs \<noteq> None"
  using last_delivering_None by blast

lemma authenticate_port_taken:
  "port_taken s \<Longrightarrow> httpd s = None \<Longrightarrow> authenticate a s = None"
  by (rule authenticate_hangs) simp

lemmas run_defs =
  authenticate_def Let_def start_local_server_def reset_auth_def shutdown_local_server_def
  emit_def new_hookup_def wait_httpd_Some py_str_def demo_attempt_def demo_uuid_def
  serve_def do_GET_def get_first_def callback_request_def code_only_request_def
  granting_endpoint_def refusing_endpoint_def save_access_token_def
  exchange_attempts_def printed_def

lemmas request_defs =
  delivers_def has_value_def first_value_def truthy_def callback_request_def
  code_only_request_def demo_attempt_def demo_uuid_def new_hookup_def

section \<open>The authentication claims\<close>



text \<open>
  Claim C2 as stated fails. \<open>authenticate\<close> returns a \<open>bool\<close>: a run in which nothing
  arrives before the timeout returns \<open>False\<close>, the very value a run with a forged state
  returns, and its trace also holds the state-mismatch line. And the timeout does not
  exclude success: when a redirect with the right state is served after the timeout has
  been noticed, while the listener is being shut down, the run calls the token endpoint,
  returns \<open>True\<close> and overwrites the token file.
\<close>

theorem timeout_is_not_a_distinct_outcome:
  "map_option fst
     (authenticate (demo_attempt [Poll 0.1, Poll 60.1] [] granting_endpoint)
        (new_hookup NoFile False)) = Some (Returned False) \<and>
   map_option (printed StateMismatch_line \<circ> snd)
     (authenticate (demo_attempt [Poll 0.1, Poll 60.1] [] granting_endpoint)
        (new_hookup NoFile False)) = Some 1 \<and>
   map_option fst
     (authenticate
        (demo_attempt [Poll 0.1, Request (callback_request ''abc123'' ''forged''), Poll 0.2]
           [] granting_endpoint)
        (new_hookup NoFile False)) = Some (Returned False) \<and>
   map_option fst
     (authenticate
        (demo_attempt [Poll 0.1, Poll 60.1] [callback_request ''abc123'' demo_uuid]
           granting_endpoint)
        (new_hookup (TokenFile (Some ''old'')) False)) = Some (Returned True) \<and>
   map_option (effects \<circ> snd)
     (authenticate
        (demo_attempt [Poll 0.1, Poll 60.1] [callback_request ''abc123'' demo_uuid]
           granting_endpoint)
        (new_hookup (TokenFile (Some ''old'')) False)) =
     Some [BrowserOpen demo_uuid, ListenerStart, Printed Timeout_line, Responded Status200,
           ExchangeCall (Some ''abc123'')] \<and>
   map_option (access_token_file \<circ> snd)
     (authenticate
        (demo_attempt [Poll 0.1, Poll 60.1] [callback_request ''abc123'' demo_uuid]
           granting_endpoint)
        (new_hookup (TokenFile (Some ''old'')) False)) = Some (TokenFile (Some ''tok_xyz''))"
  by (simp add: run_defs)

text \<open>
  Claim C2, as amended. When no callback result is handed over before the listener has
  been shut down, neither within the timeout nor while the shutdown is under way,
  \<open>authenticate\<close> aborts: it prints the timeout line, stops the listener, clears the
  pending authorization and returns \<open>False\<close>, the one failure value of its \<open>bool\<close>
  result, without calling the token endpoint. The other hypotheses say that the text of
  the UUID has its 36 characters, that the run is complete (some poll lies beyond the
  timeout), that nobody interrupts it, and that the listener could bind.
\<close>

theorem authenticate_timeout:
  assumes "length (uuid4 a) = 36"
    and "\<forall>r\<in>set (requests_of (sched a)) \<union> set (late a). \<not> delivers r"
    and "Interrupt \<notin> set (sched a)"
    and "Poll t \<in> set (sched a)" and "todoist_oauth_timeout s < t"
    and "\<not> port_taken s"
  shows "\<exists>s'. authenticate a s = Some (Returned False, s') \<and> cleared s' \<and>
           httpd s' = Some Closed \<and> exchange_attempts s' = exchange_attempts s \<and>
           printed Timeout_line s' = Suc (printed Timeout_line s)"
proof -
  from assms(2) have differ: "\<forall>r\<in>set (requests_of (sched a)) \<union> set (late a).
      delivers r \<longrightarrow> first_value (params r) ''state'' \<noteq> Some (uuid4 a)" by blast
  from run_without_match[OF assms(1) differ assms(3-6)] obtain w s4 s' where
    wl: "wait_loop (late a) (sched a) (listening a s) = Some (w, s4)" "w \<noteq> Interrupted"
    and r: "authenticate a s = Some (Returned False, s')" "cleared s'" "httpd s' = Some Closed"
      "exchange_attempts s' = exchange_attempts s"
      "printed Timeout_line s' = printed Timeout_line s4"
    by blast
  from assms(2) have "\<forall>r\<in>set (requests_of (sched a)). \<not> delivers r" by blast
  from wait_loop_quiet[OF wl(1) this _ wl(2)]
  have "printed Timeout_line s4 = Suc (printed Timeout_line s)" by simp
  with r show ?thesis by auto
qed

theorem authenticate_timeout_witness:
  "\<not> delivers (code_only_request ''abc123'') \<and> \<not> delivers (code_only_request ''late'') \<and>
   map_option fst
     (authenticate
        (demo_attempt [Poll 0.1, Request (code_only_request ''abc123''), Poll 30, Poll 60.1]
           [code_only_request ''late''] granting_endpoint)
        (new_hookup NoFile False)) = Some (Returned False)"
proof -
  let ?a = "demo_attempt [Poll 0.1, Request (code_only_request ''abc123''), Poll 30, Poll 60.1]
              [code_only_request ''late''] granting_endpoint"
  let ?s = "new_hookup NoFile False"
  have 1: "length (uuid4 ?a) = 36" by (simp add: request_defs)
  have 2: "\<forall>r\<in>set (requests_of (sched ?a)) \<union> set (late ?a). \<not> delivers r"
    by (simp add: request_defs)
  have 3: "Interrupt \<notin> set (sched ?a)" by (simp add: request_defs)
  have 4: "Poll 60.1 \<in> set (sched ?a)" by (simp add: request_defs)
  have 5: "todoist_oauth_timeout ?s < 60.1" by (simp add: request_defs)
  have 6: "\<not> port_taken ?s" by (simp add: request_defs)
  from authenticate_timeout[OF 1 2 3 4 5 6]
  have "map_option fst (authenticate ?a ?s) = Some (Returned False)" by auto
  then show ?thesis by (simp add: request_defs)
qed

text \<open>
  Claim C3. Whatever way an attempt ends, the token file differs from what it was only
  if \<open>authenticate\<close> returned \<open>True\<close>; and it returns \<open>True\<close> only when the stored state
  equals the generated one and the token endpoint answered with a token, which is then the
  token in memory and, unless the write fails, the content of the file.
\<close>

theorem token_file_written_only_on_success:
  assumes "authenticate a s = Some (out, s')"
  shows "(out \<noteq> Returned True \<longrightarrow> access_token_file s' = access_token_file s) \<and>
         (out = Returned True \<longrightarrow>
            uuid4 a = py_str (todoist_response_state s') \<and>
            (\<exists>tok. get_auth_token a (todoist_response_auth_code s') = Inr tok \<and>
                   todoist_api_token s' = Some tok \<and>
                   access_token_file s' =
                     (case save_outcome a of
                        SaveOk \<Rightarrow> TokenFile (Some tok)
                      | OpenFailed \<Rightarrow> access_token_file s
                      | DumpFailed \<Rightarrow> BrokenFile)))"
  using assms
proof (cases rule: authenticate_cases)
  case (interrupted s4)
  with wait_loop_frame[of "late a" "sched a" "listening a s" Interrupted s4]
  show ?thesis by simp
next
  case (finished w s4)
  note fr = wait_loop_file[OF finished(2)]
  from finished(4) show ?thesis
  proof (cases rule: finish_cases)
    case mismatch
    with fr show ?thesis by simp
  next
    case (failed e)
    with fr show ?thesis by simp
  next
    case (stored tok)
    with fr show ?thesis by (simp split: save_outcome.splits)
  qed
qed

theorem token_file_written_only_on_success_witness:
  "map_option fst
     (authenticate
        (demo_attempt [Poll 0.4, Request (callback_request ''abc123'' demo_uuid), Poll 0.5]
           [] granting_endpoint)
        (new_hookup NoFile False)) = Some (Returned True) \<and>
   map_option (access_token_file \<circ> snd)
     (authenticate
        (demo_attempt [Poll 0.4, Request (callback_request ''abc123'' demo_uuid), Poll 0.5]
           [] granting_endpoint)
        (new_hookup NoFile False)) = Some (TokenFile (Some ''tok_xyz''))"
proof -
  let ?a = "demo_attempt [Poll 0.4, Request (callback_request ''abc123'' demo_uuid), Poll 0.5]
              [] granting_endpoint"
  let ?s = "new_hookup NoFile False"
  have out: "map_option fst (authenticate ?a ?s) = Some (Returned True)"
    by (simp add: run_defs)
  then obtain s' where run: "authenticate ?a ?s = Some (Returned True, s')"
    by (cases "authenticate ?a ?s") auto
  from token_file_written_only_on_success[OF run]
  have "access_token_file s' = TokenFile (Some ''tok_xyz'')"
    by (auto simp: demo_attempt_def granting_endpoint_def)
  with out run show ?thesis by simp
qed



text \<open>
  Claim C5. When an attempt calls the token endpoint and the call fails for the code it
  was given, \<open>authenticate\<close> ends by raising the exception of that call; the endpoint was
  called once, the token file is as before and no token is held in memory.
\<close>

theorem exchange_failure_raises:
  assumes "authenticate a s = Some (out, s')"
    and "exchange_attempts s' \<noteq> exchange_attempts s"
    and "get_auth_token a (todoist_response_auth_code s') = Inl e"
  shows "out = Raised e \<and> exchange_attempts s' = Suc (exchange_attempts s) \<and>
         access_token_file s' = access_token_file s \<and> todoist_api_token s' = None"
  using assms(1)
proof (cases rule: authenticate_cases)
  case (interrupted s4)
  with wait_loop_frame[of "late a" "sched a" "listening a s" Interrupted s4] assms(2)
  show ?thesis by simp
next
  case (finished w s4)
  note fr = wait_loop_file[OF finished(2)]
  have tok: "todoist_api_token (shutdown_local_server (late a) s4) = None"
    using wait_loop_token[OF finished(2)] by simp
  from finished(4) show ?thesis
  proof (cases rule: finish_cases)
    case mismatch
    with fr assms(2) show ?thesis by simp
  next
    case (failed e')
    with fr assms(3) tok show ?thesis by simp
  next
    case (stored tok)
    with assms(3) show ?thesis by simp
  qed
qed

theorem exchange_failure_raises_witness:
  "map_option (exchange_attempts \<circ> snd)
     (authenticate
        (demo_attempt [Poll 0.4, Request (callback_request ''abc123'' demo_uuid), Poll 0.5]
           [] refusing_endpoint)
        (new_hookup (TokenFile (Some ''old'')) False)) = Some 1 \<and>
   map_option fst
     (authenticate
        (demo_attempt [Poll 0.4, Request (callback_request ''abc123'' demo_uuid), Poll 0.5]
           [] refusing_endpoint)
        (new_hookup (TokenFile (Some ''old'')) False)) =
     Some (Raised (LibraryError ''400 Bad Request'')) \<and>
   map_option (access_token_file \<circ> snd)
     (authenticate
        (demo_attempt [Poll 0.4, Request (callback_request ''abc123'' demo_uuid), Poll 0.5]
           [] refusing_endpoint)
        (new_hookup (TokenFile (Some ''old'')) False)) = Some (TokenFile (Some ''old''))"
proof -
  let ?a = "demo_attempt [Poll 0.4, Request (callback_request ''abc123'' demo_uuid), Poll 0.5]
              [] refusing_endpoint"
  let ?s = "new_hookup (TokenFile (Some ''old'')) False"
  have n: "map_option (exchange_attempts \<circ> snd) (authenticate ?a ?s) = Some 1"
    by (simp add: run_defs)
  then obtain out s' where run: "authenticate ?a ?s = Some (out, s')"
    and one: "exchange_attempts s' = 1"
    by (cases "authenticate ?a ?s") auto
  have "exchange_attempts ?s = 0" by (simp add: exchange_attempts_def new_hookup_def)
  with one have 2: "exchange_attempts s' \<noteq> exchange_attempts ?s" by simp
  have 3: "get_auth_token ?a (todoist_response_auth_code s') = Inl (LibraryError ''400 Bad Request'')"
    by (simp add: demo_attempt_def refusing_endpoint_def)
  from exchange_failure_raises[OF run 2 3]
  have "out = Raised (LibraryError ''400 Bad Request'')"
    "access_token_file s' = TokenFile (Some ''old'')"
    by (simp_all add: new_hookup_def)
  with n run show ?thesis by simp
qed

text \<open>
  Claim C6 as stated fails. Two redirects with the right state arrive between two polls:
  both are answered with status 200, and the code sent to the token endpoint is that of
  the second.
\<close>

theorem second_callback_overwrites_first:
  "map_option (effects \<circ> snd)
     (authenticate
        (demo_attempt
           [Poll 3.1, Request (callback_request ''first'' demo_uuid),
            Request (callback_request ''second'' demo_uuid), Poll 3.2]
           [] granting_endpoint)
        (new_hookup NoFile False)) =
   Some [BrowserOpen demo_uuid, ListenerStart, Responded Status200, Responded Status200,
         ExchangeCall (Some ''second'')]"
  by (simp add: run_defs)

text \<open>
  Claim C6, as amended. The listener hands over every request with a non-empty code
  and state that it serves, each overwriting the one before; it is stopped once a poll of
  the waiting thread has seen the flag. The state comparison and the exchange
  (\<open>finish\<close>) therefore run on the code and state of the last such request served before
  the shutdown completed, and after the shutdown no request is served.
\<close>

theorem last_callback_wins:
  assumes port: "\<not> port_taken s"
    and shape: "sched a = pre @ map Request rs @ Poll t # rest"
    and pre: "\<forall>e\<in>set pre. quiet (todoist_oauth_timeout s) e"
    and some: "\<exists>r'\<in>set rs. delivers r'"
    and last: "last_delivering (rs @ late a) = Some r"
  shows "\<exists>s5. authenticate a s = Some (finish a s5) \<and>
           todoist_response_auth_code s5 = first_value (params r) ''code'' \<and>
           todoist_response_state s5 = first_value (params r) ''state'' \<and>
           httpd s5 = Some Closed \<and> (\<forall>r'. serve r' s5 = s5)"
proof -
  let ?s2 = "listening a s"
  let ?s3 = "serve_all (requests_of pre) ?s2"
  let ?s4 = "serve_all rs ?s3"
  let ?s5 = "shutdown_local_server (late a) ?s4"
  from port have h: "httpd ?s2 \<noteq> None" and sv: "httpd ?s2 = Some Serving" by simp_all
  from pre have q: "\<forall>r\<in>set (requests_of pre). \<not> delivers r" by (rule requests_of_quiet)
  have "todoist_oauth_callback_received ?s4"
    using serve_all_last(3)[of ?s3 rs] last_delivering_exists[OF some] sv by auto
  then have "wait_loop (late a) (Poll t # rest) ?s4 = Some (CallbackSeen, ?s4)" by simp
  with pre have wl: "wait_loop (late a) (sched a) ?s2 = Some (CallbackSeen, ?s4)"
    by (simp add: shape wait_loop_pre wait_loop_requests)
  have auth: "authenticate a s = Some (finish a ?s5)"
    unfolding authenticate_running[OF h] wl by simp
  have both: "serve_all (late a) ?s4 = serve_all (rs @ late a) ?s3"
    by (simp add: serve_all_append)
  have "todoist_response_auth_code ?s5 = first_value (params r) ''code''"
    "todoist_response_state ?s5 = first_value (params r) ''state''"
    unfolding shutdown_pending both using serve_all_last(1,2)[of ?s3 "rs @ late a"] last sv
    by simp_all
  moreover have "httpd ?s5 = Some Closed" using sv by simp
  ultimately show ?thesis using auth by (intro exI[of _ ?s5]) simp
qed

theorem last_callback_wins_witness:
  "last_delivering [callback_request ''first'' demo_uuid, callback_request ''second'' demo_uuid] =
     Some (callback_request ''second'' demo_uuid) \<and>
   map_option (todoist_response_auth_code \<circ> snd)
     (authenticate
        (demo_attempt
           [Poll 3.1, Request (callback_request ''first'' demo_uuid),
            Request (callback_request ''second'' demo_uuid), Poll 3.2]
           [] granting_endpoint)
        (new_hookup NoFile False)) = Some (Some ''second'')"
proof -
  let ?r1 = "callback_request ''first'' demo_uuid"
  let ?r2 = "callback_request ''second'' demo_uuid"
  let ?a = "demo_attempt [Poll 3.1, Request ?r1, Request ?r2, Poll 3.2] [] granting_endpoint"
  let ?s = "new_hookup NoFile False"
  have 1: "\<not> port_taken ?s" by (simp add: new_hookup_def)
  have 2: "sched ?a = [Poll 3.1] @ map Request [?r1, ?r2] @ Poll 3.2 # []"
    by (simp add: demo_attempt_def)
  have 3: "\<forall>e\<in>set [Poll 3.1]. quiet (todoist_oauth_timeout ?s) e"
    by (simp add: new_hookup_def)
  have d: "delivers ?r1" "delivers ?r2" by (simp_all add: request_defs)
  then have 4: "\<exists>r'\<in>set [?r1, ?r2]. delivers r'" by simp
  from d have 5: "last_delivering ([?r1, ?r2] @ late ?a) = Some ?r2"
    by (simp add: demo_attempt_def)
  from last_callback_wins[OF 1 2 3 4 5] obtain s5 where
    run: "authenticate ?a ?s = Some (finish ?a s5)"
    and c: "todoist_response_auth_code s5 = Some ''second''"
    and st: "todoist_response_state s5 = Some demo_uuid"
    by (auto simp: callback_request_def first_value_def)
  have "todoist_response_auth_code (snd (finish ?a s5)) = Some ''second''"
    using c st by (simp add: finish_def demo_attempt_def granting_endpoint_def py_str_def)
  with run 5 show ?thesis by (simp add: demo_attempt_def)
qed

text \<open>
  Claim C7. When the token file holds a non-empty token, neither the constructor nor
  \<open>main\<close> authenticates: the token is loaded, the trace holds no browser opening, no
  listener start and no exchange call, and no server object exists.
\<close>

theorem cached_token_skips_authentication:
  assumes "tok \<noteq> []"
  shows "\<exists>s0 s. hookup_init a1 configure_ok (TokenFile (Some tok)) taken = Some (Returned (), s0) \<and>
           effects s0 = [] \<and> httpd s0 = None \<and>
           main_authenticate a1 a2 configure_ok (TokenFile (Some tok)) taken = Some (Returned (), s) \<and>
           todoist_api_token s = Some tok \<and> effects s = [Printed Already_line] \<and> httpd s = None"
  using assms
  by (simp add: main_authenticate_def hookup_init_def load_access_token_def new_hookup_def
      truthy_def emit_def)

theorem cached_token_skips_authentication_witness:
  "''tok_xyz'' \<noteq> [] \<and>
   map_option (effects \<circ> snd)
     (main_authenticate (demo_attempt [] [] granting_endpoint) (demo_attempt [] [] granting_endpoint)
        True (TokenFile (Some ''tok_xyz'')) False) = Some [Printed Already_line]"
proof -
  have 1: "''tok_xyz'' \<noteq> []" by simp
  from cached_token_skips_authentication[of "''tok_xyz''" "demo_attempt [] [] granting_endpoint"
      True False "demo_attempt [] [] granting_endpoint", OF 1]
  show ?thesis by auto
qed

text \<open>
  Claim C8. With port 8080 held by another process and no server object from an earlier
  attempt, the listener thread ends on the bind error and the waiting thread never leaves
  its first loop: \<open>authenticate\<close>, and with it the constructor, does not return, whatever
  the schedule.
\<close>

theorem bind_failure_never_returns:
  "authenticate (demo_attempt [Poll 61] [] granting_endpoint) (new_hookup NoFile True) = None \<and>
   hookup_init (demo_attempt [Poll 61] [] granting_endpoint) True NoFile True = None"
proof -
  have "authenticate (demo_attempt [Poll 61] [] granting_endpoint) (new_hookup NoFile True) = None"
    by (rule authenticate_port_taken) (simp_all add: new_hookup_def)
  then show ?thesis
    by (simp add: hookup_init_def load_access_token_def new_hookup_def truthy_def)
qed

text \<open>
  Claim C9. However an attempt ends (a returned value, an exception of the exchange, or
  the exit after an interrupt), the server object is shut down with its socket closed and
  serves no further request; shutting down again changes nothing; and a following
  \<open>start_local_server\<close> binds the port again unless another process holds it.
\<close>

theorem authenticate_releases_socket:
  assumes "authenticate a s = Some (out, s')"
  shows "httpd s' = Some Closed \<and> serve r s' = s' \<and>
         shutdown_local_server l2 (shutdown_local_server l1 s') = shutdown_local_server l1 s' \<and>
         shutdown_local_server l1 s' = s' \<and>
         (\<not> port_taken s' \<longrightarrow> httpd (start_local_server s') = Some Serving)"
proof -
  from assms have closed: "httpd s' = Some Closed"
  proof (cases rule: authenticate_cases)
    case (interrupted s4)
    with wait_loop_frame[of "late a" "sched a" "listening a s" Interrupted s4]
    show ?thesis by simp
  next
    case (finished w s4)
    from finished(4) wait_loop_httpd[OF finished(2) finished(1)]
    show ?thesis by (rule finish_frame)
  qed
  then show ?thesis by (simp add: shutdown_idem)
qed

theorem authenticate_releases_socket_witness:
  "map_option fst
     (authenticate (demo_attempt [Poll 0.1, Interrupt] [] granting_endpoint)
        (new_hookup NoFile False)) = Some (Exited 1) \<and>
   map_option (httpd \<circ> snd)
     (authenticate (demo_attempt [Poll 0.1, Interrupt] [] granting_endpoint)
        (new_hookup NoFile False)) = Some (Some Closed)"
proof -
  let ?a = "demo_attempt [Poll 0.1, Interrupt] [] granting_endpoint"
  let ?s = "new_hookup NoFile False"
  have out: "map_option fst (authenticate ?a ?s) = Some (Exited 1)"
    by (simp add: run_defs)
  then obtain s' where run: "authenticate ?a ?s = Some (Exited 1, s')"
    by (cases "authenticate ?a ?s") auto
  from authenticate_releases_socket[OF run] have "httpd s' = Some Closed" by simp
  with out run show ?thesis by simp
qed

end
